theory Spec2Isabelle
  imports Complex_Main
begin

section \<open>The frame tokenizer: \<open>eventSplit\<close>\<close>

text \<open>
  A Go \<open>[]byte\<close> is a list of bytes; \<open>char\<close> is HOL's type of bytes. The nil slice
  and the empty slice are both the empty list: \<open>eventSplit\<close> starts from the nil
  token and appends one byte per iteration, so its token is nil exactly when it is empty.
\<close>

type_synonym bytes = "char list"

abbreviation nl :: char where
  "nl \<equiv> CHR 0x0A"

text \<open>
  The body of \<open>for _, b := range data\<close>, with the three local variables passed
  along: every byte is appended and counted; a newline seen while \<open>found\<close> is set
  leaves the loop, any other newline sets \<open>found\<close>, any other byte clears it.
  \<open>advance\<close> is a Go \<open>int\<close>; it counts bytes of one slice and cannot overflow.
\<close>

fun eventSplit_loop :: "bytes \<Rightarrow> bytes \<Rightarrow> nat \<Rightarrow> bool \<Rightarrow> nat \<times> bytes" where
  "eventSplit_loop [] token advance found = (advance, token)"
| "eventSplit_loop (b # bs) token advance found =
     (if b = nl then
        (if found then (advance + 1, token @ [b])
         else eventSplit_loop bs (token @ [b]) (advance + 1) True)
      else eventSplit_loop bs (token @ [b]) (advance + 1) False)"

text \<open>The third component is the error, which is always nil (\<open>None\<close>).\<close>

definition eventSplit :: "bytes \<Rightarrow> bool \<Rightarrow> nat \<times> bytes \<times> string option" where
  "eventSplit data atEOF =
     (case eventSplit_loop data [] 0 False of (advance, token) \<Rightarrow> (advance, token, None))"

text \<open>
  \<open>scanner.Split(eventSplit)\<close> hands the tokenizer to a \<open>bufio.Scanner\<close>. While its
  buffer holds bytes, each \<open>Scan\<close> calls the split function on them, yields the token
  (it is not nil, the buffer being non-empty) and drops \<open>advance\<close> bytes.
  \<open>scan_buffer\<close> lists the tokens obtained from one buffer in this way. It terminates
  because \<open>eventSplit\<close> consumes at least one byte of a non-empty buffer.
\<close>

function scan_buffer :: "bytes \<Rightarrow> bytes list" where
  "scan_buffer buf =
     (if buf = [] then []
      else (case eventSplit buf False of
              (advance, token, err) \<Rightarrow> token # scan_buffer (drop advance buf)))"
  by pat_completeness auto
termination
proof (relation "measure length")
  show "wf (measure length)" by simp
next
  fix buf :: bytes and advance y token err
  assume ne: "buf \<noteq> []" and x: "(advance, y) = eventSplit buf False"
  have le: "a \<le> fst (eventSplit_loop data t a f)" for data t a f
  proof (induction data arbitrary: t a f)
    case Nil
    then show ?case by simp
  next
    case (Cons b bs)
    from Cons.IH[where a = "a + 1" and t = "t @ [b]" and f = True]
      Cons.IH[where a = "a + 1" and t = "t @ [b]" and f = False]
    show ?case by auto
  qed
  have grow: "a < fst (eventSplit_loop data t a f)" if "data \<noteq> []" for data t a f
  proof (cases data)
    case Nil
    with that show ?thesis by simp
  next
    case (Cons b bs)
    from le[where a = "a + 1" and t = "t @ [b]" and f = True and data = bs]
      le[where a = "a + 1" and t = "t @ [b]" and f = False and data = bs] Cons
    show ?thesis by auto
  qed
  from grow[OF ne, where a = 0 and t = "[]" and f = False] x have "0 < advance"
    by (auto simp: eventSplit_def split: prod.splits)
  with ne show "(drop advance buf, buf) \<in> measure length"
    by (cases buf) auto
qed

subsection \<open>Blank-line boundaries of a byte sequence\<close>

text \<open>
  \<open>boundaries_from k data\<close> lists the positions, counted from \<open>k\<close>, at which a
  newline byte is directly followed by another newline byte.
\<close>

fun boundaries_from :: "nat \<Rightarrow> bytes \<Rightarrow> nat list" where
  "boundaries_from k (a # b # rest) =
     (if a = nl \<and> b = nl then k # boundaries_from (Suc k) (b # rest)
      else boundaries_from (Suc k) (b # rest))"
| "boundaries_from k [a] = []"
| "boundaries_from k [] = []"

definition boundaries :: "bytes \<Rightarrow> nat list" where
  "boundaries data = boundaries_from 0 data"

section \<open>Events and decoded values\<close>

text \<open>
  \<open>Data interface{}\<close> holds what \<open>encoding/json\<close> stores in an empty interface:
  nil, a bool, a float64, a string, a slice or a map. A float64 read from JSON text is
  a real number.
\<close>

datatype iface = INil | IBool bool | IFloat64 real | IString string
  | ISlice "iface list" | IMap "(string \<times> iface) list"

record Event =
  Type :: string
  Path :: string
  Data :: iface

subsection \<open>The two functions of package \<open>strings\<close> that the loop calls\<close>

text \<open>
  \<open>strings.Split\<close> with the newline as separator: the pieces of \<open>s\<close> between
  newlines. There is always
  at least one piece, so \<open>parts[0]\<close> exists; \<open>cur\<close> is the piece being read.
\<close>

fun split_lines :: "string \<Rightarrow> string \<Rightarrow> string list" where
  "split_lines cur [] = [cur]"
| "split_lines cur (c # cs) =
     (if c = nl then cur # split_lines [] cs else split_lines (cur @ [c]) cs)"

definition Split_nl :: "string \<Rightarrow> string list" where
  "Split_nl s = split_lines [] s"

text \<open>
  \<open>strings.Replace(s, old, new, 1)\<close> for a non-empty \<open>old\<close>: the leftmost occurrence
  of \<open>old\<close> in \<open>s\<close>, wherever it starts, is replaced by \<open>new\<close>.
\<close>

fun Replace_first :: "string \<Rightarrow> string \<Rightarrow> string \<Rightarrow> string" where
  "Replace_first [] old new = []"
| "Replace_first (c # cs) old new =
     (if take (length old) (c # cs) = old then new @ drop (length old) (c # cs)
      else c # Replace_first cs old new)"

section \<open>Failures and channels\<close>

text \<open>
  A goroutine that does not run to its end either exits the process through
  \<open>log.Fatal\<close>, panics, or stays blocked on a channel operation that no other
  goroutine completes.
\<close>

datatype panic = IndexOutOfRange | TypeAssertion | SendOnClosedChannel | CloseOfClosedChannel

datatype failure = Fatal string | Panic panic | Blocked

text \<open>
  A consumer channel is described by the values sent on it so far, in order, and by
  whether it has been closed. The consumer is taken to receive every value offered to
  it, so a send on an open channel returns. Sending on a closed channel and closing a
  closed channel panic, as in Go.
\<close>

record 'a chan =
  sent :: "'a list"
  closed :: bool

definition chan_send :: "'a chan \<Rightarrow> 'a \<Rightarrow> failure + 'a chan" where
  "chan_send c v =
     (if closed c then Inl (Panic SendOnClosedChannel) else Inr (c\<lparr>sent := sent c @ [v]\<rparr>))"

definition chan_close :: "'a chan \<Rightarrow> failure + 'a chan" where
  "chan_close c =
     (if closed c then Inl (Panic CloseOfClosedChannel) else Inr (c\<lparr>closed := True\<rparr>))"

section \<open>The read loop of \<open>Watch\<close>\<close>

text \<open>
  \<open>json.Unmarshal\<close> into a \<open>map[string]interface{}\<close> belongs to the standard library
  and is a parameter here: it returns an error (\<open>Inl\<close>) or the decoded map.
  Indexing a Go map with a missing key gives the zero value, the nil interface.
\<close>

type_synonym decoder = "string \<Rightarrow> string + (string \<rightharpoonup> iface)"

definition map_index :: "(string \<rightharpoonup> iface) \<Rightarrow> string \<Rightarrow> iface" where
  "map_index m k = (case m k of None \<Rightarrow> INil | Some v \<Rightarrow> v)"

text \<open>
  One pass through the body of \<open>for scanner.Scan()\<close> ends in one of three ways: the
  loop goes on, the loop is left by \<open>break scanning\<close>, or the goroutine fails.
\<close>

datatype step = Continue "Event chan" | Break "Event chan" | Stop failure

text \<open>The \<open>Type\<close> that the loop derives from the first line of a frame.\<close>

definition frame_Type :: "string \<Rightarrow> string" where
  "frame_Type text = Replace_first (hd (Split_nl text)) ''event: '' ''''"

text \<open>
  The loop body for the frame \<open>text = scanner.Text()\<close>. \<open>parts[1]\<close> panics when the
  frame has one line only; \<open>log.Fatal\<close> exits on a decoding error; the assertion
  \<open>data["path"].(string)\<close> panics unless the value is a string. The switch has the four
  cases of the source, in its order, and no default case.
\<close>

definition handle_frame :: "decoder \<Rightarrow> string \<Rightarrow> Event chan \<Rightarrow> step" where
  "handle_frame unmarshal text notifications =
     (let parts = Split_nl text;
          event = \<lparr>Type = Replace_first (hd parts) ''event: '' '''', Path = '''', Data = INil\<rparr>
      in if Type event = ''put'' \<or> Type event = ''patch'' then
           (case tl parts of
              [] \<Rightarrow> Stop (Panic IndexOutOfRange)
            | p1 # _ \<Rightarrow>
               (case unmarshal (Replace_first p1 ''data: '' '''') of
                  Inl err \<Rightarrow> Stop (Fatal err)
                | Inr data \<Rightarrow>
                   (case map_index data ''path'' of
                      IString path \<Rightarrow>
                        (case chan_send notifications
                                (event\<lparr>Path := path, Data := map_index data ''data''\<rparr>) of
                           Inl f \<Rightarrow> Stop f
                         | Inr c \<Rightarrow> Continue c)
                    | _ \<Rightarrow> Stop (Panic TypeAssertion))))
         else if Type event = ''keep-alive'' then Continue notifications
         else if Type event = ''cancel'' then
           (case chan_send notifications event of
              Inl f \<Rightarrow> Stop f
            | Inr c \<Rightarrow> Break c)
         else if Type event = ''auth_revoked'' then Continue notifications
         else Continue notifications)"

text \<open>
  The loop labelled \<open>scanning\<close>, over the frames that the scanner yields until
  \<open>Scan\<close> returns false.
\<close>

fun scanning :: "decoder \<Rightarrow> string list \<Rightarrow> Event chan \<Rightarrow> failure + Event chan" where
  "scanning unmarshal [] notifications = Inr notifications"
| "scanning unmarshal (text # texts) notifications =
     (case handle_frame unmarshal text notifications of
        Continue c \<Rightarrow> scanning unmarshal texts c
      | Break c \<Rightarrow> Inr c
      | Stop f \<Rightarrow> Inl f)"

section \<open>The watch session\<close>

text \<open>
  Modelled from the spec: the declaration of the \<open>Firebase\<close> struct is not part of
  \<open>watch.go\<close>. Its field \<open>watching\<close> is the boolean flag, and \<open>stopWatching\<close> is
  an unbuffered channel used only as a stop signal, so a send on it completes only by
  handing the value to a goroutine that is waiting to receive.

  The state of one client and of the things its watches touch:
  \<^item> \<open>watching\<close>: the flag \<open>fb.watching\<close>;
  \<^item> \<open>stop_receivers\<close>: the goroutines waiting in \<open><-fb.stopWatching\<close>, oldest first,
    each named by the response whose body it closes next;
  \<^item> \<open>closed_bodies\<close>: the responses on which \<open>resp.Body.Close()\<close> was called;
  \<^item> \<open>chans\<close>: the consumer channels, by address;
  \<^item> \<open>loops\<close>: the read loops launched by \<open>go func()\<close>, as pairs of the consumer
    channel and the response.
\<close>

record world =
  watching :: bool
  stop_receivers :: "nat list"
  closed_bodies :: "nat list"
  chans :: "nat \<Rightarrow> Event chan"
  loops :: "(nat \<times> nat) list"

text \<open>
  \<open>StopWatching\<close>: under the guard, the send wakes the oldest waiting receiver, which
  closes its response body, and the flag is cleared. With no receiver waiting the send
  does not complete.
\<close>

definition StopWatching :: "world \<Rightarrow> failure + world" where
  "StopWatching w =
     (if watching w then
        (case stop_receivers w of
           [] \<Rightarrow> Inl Blocked
         | r # rs \<Rightarrow>
             Inr (w\<lparr>stop_receivers := rs, closed_bodies := closed_bodies w @ [r],
                     watching := False\<rparr>))
      else Inr w)"

text \<open>
  \<open>fb.makeRequest\<close> and \<open>fb.client.Do\<close> are collaborators outside \<open>watch.go\<close> and
  are parameters; each returns an error (\<open>Inl\<close>) or its result. \<open>makeRequest\<close> is
  called with the method \<open>"GET"\<close> and a nil body. The result of \<open>Watch\<close> is the new
  state and the returned error, \<open>None\<close> for nil.
\<close>

record request =
  req_method :: string
  req_header :: "(string \<times> string) list"

definition Watch ::
  "(string \<Rightarrow> string + request) \<Rightarrow> (request \<Rightarrow> string + nat) \<Rightarrow> world \<Rightarrow> nat \<Rightarrow>
   failure + (world \<times> string option)" where
  "Watch makeRequest client_Do w notifications =
     (if watching w then
        (case chan_close (chans w notifications) of
           Inl f \<Rightarrow> Inl f
         | Inr c \<Rightarrow> Inr (w\<lparr>chans := (chans w)(notifications := c)\<rparr>, None))
      else
        (case makeRequest ''GET'' of
           Inl err \<Rightarrow> Inr (w, Some err)
         | Inr req \<Rightarrow>
            (case client_Do (req\<lparr>req_header :=
                       req_header req @ [(''Accept'', ''text/event-stream'')]\<rparr>) of
               Inl err \<Rightarrow> Inr (w, Some err)
             | Inr resp \<Rightarrow>
                 Inr (w\<lparr>watching := True, loops := loops w @ [(notifications, resp)]\<rparr>,
                      None))))"

text \<open>
  The goroutine that \<open>Watch\<close> launches, run from its start to its end on the frames
  \<open>texts\<close>: it starts the goroutine that waits for the stop signal, runs the loop,
  calls \<open>fb.StopWatching()\<close> and closes the consumer channel.
\<close>

definition read_loop :: "decoder \<Rightarrow> string list \<Rightarrow> nat \<Rightarrow> nat \<Rightarrow> world \<Rightarrow> failure + world" where
  "read_loop unmarshal texts notifications resp w =
     (let w1 = w\<lparr>stop_receivers := stop_receivers w @ [resp]\<rparr>
      in case scanning unmarshal texts (chans w1 notifications) of
           Inl f \<Rightarrow> Inl f
         | Inr c \<Rightarrow>
            (case StopWatching (w1\<lparr>chans := (chans w1)(notifications := c)\<rparr>) of
               Inl f \<Rightarrow> Inl f
             | Inr w2 \<Rightarrow>
                (case chan_close (chans w2 notifications) of
                   Inl f \<Rightarrow> Inl f
                 | Inr c' \<Rightarrow> Inr (w2\<lparr>chans := (chans w2)(notifications := c')\<rparr>))))"

section \<open>Inputs for the examples\<close>

text \<open>
  A decoder that gives what \<open>json.Unmarshal\<close> gives on the three objects and on
  \<open>null\<close> (no error, and the map stays nil, so every key is missing), the payloads
  used in the examples, and an error on every other input.
\<close>

definition sample_Unmarshal :: decoder where
  \<open>sample_Unmarshal s =
     (if s = ''{"path":"/a","data":5}'' then
        Inr [''path'' \<mapsto> IString ''/a'', ''data'' \<mapsto> IFloat64 5]
      else if s = ''{"data":5}'' then Inr [''data'' \<mapsto> IFloat64 5]
      else if s = ''{"path":7,"data":5}'' then
        Inr [''path'' \<mapsto> IFloat64 7, ''data'' \<mapsto> IFloat64 5]
      else if s = ''null'' then Inr Map.empty
      else Inl ''unexpected end of JSON input'')\<close>

text \<open>A client that is not watching, with every consumer channel open and unused.\<close>

definition fresh_world :: world where
  "fresh_world = \<lparr>watching = False, stop_receivers = [], closed_bodies = [],
                   chans = (\<lambda>_. \<lparr>sent = [], closed = False\<rparr>), loops = []\<rparr>"

text \<open>Collaborators that fail, and collaborators that succeed.\<close>

definition failing_makeRequest :: "string \<Rightarrow> string + request" where
  "failing_makeRequest method = Inl ''invalid URL''"

definition sample_makeRequest :: "string \<Rightarrow> string + request" where
  "sample_makeRequest method = Inr \<lparr>req_method = method, req_header = []\<rparr>"

definition failing_Do :: "request \<Rightarrow> string + nat" where
  "failing_Do req = Inl ''connection refused''"

definition sample_Do :: "request \<Rightarrow> string + nat" where
  "sample_Do req = Inr 0"

section \<open>Lemmas on the tokenizer loop\<close>

subsection \<open>The loop on a sequence without a boundary\<close>

lemma boundaries_from_ge: "i \<in> set (boundaries_from k data) \<Longrightarrow> k \<le> i"
proof (induction k data rule: boundaries_from.induct)
  case (1 k a b rest)
  then show ?case by (auto split: if_splits)
qed simp_all

lemma eventSplit_loop_no_boundary:
  "boundaries_from k data = [] \<Longrightarrow> \<not> (found \<and> data \<noteq> [] \<and> hd data = nl) \<Longrightarrow>
   eventSplit_loop data token advance found = (advance + length data, token @ data)"
proof (induction data arbitrary: k token advance found)
  case Nil
  then show ?case by simp
next
  case (Cons b bs)
  show ?case
  proof (cases bs)
    case Nil
    with Cons.prems show ?thesis by auto
  next
    case (Cons c cs)
    from Cons.prems(1) Cons have nb: "\<not> (b = nl \<and> c = nl)"
      and rest: "boundaries_from (Suc k) bs = []"
      by (auto split: if_splits)
    show ?thesis
    proof (cases "b = nl")
      case True
      with Cons.prems(2) have nf: "\<not> found" by simp
      from nb True Cons have "\<not> (True \<and> bs \<noteq> [] \<and> hd bs = nl)" by simp
      from Cons.IH[OF rest this, of "token @ [b]" "advance + 1"] True nf
      show ?thesis by simp
    next
      case False
      have "\<not> (False \<and> bs \<noteq> [] \<and> hd bs = nl)" by simp
      from Cons.IH[OF rest this, of "token @ [b]" "advance + 1"] False
      show ?thesis by simp
    qed
  qed
qed

subsection \<open>The loop on a sequence with a boundary\<close>

lemma eventSplit_loop_first_boundary:
  "boundaries_from k data = i # others \<Longrightarrow> \<not> (found \<and> data \<noteq> [] \<and> hd data = nl) \<Longrightarrow>
   eventSplit_loop data token advance found =
     (advance + (i - k) + 2, token @ take (i - k + 2) data)"
proof (induction data arbitrary: k token advance found)
  case Nil
  then show ?case by simp
next
  case (Cons b bs)
  show ?case
  proof (cases bs)
    case Nil
    with Cons.prems show ?thesis by simp
  next
    case (Cons c cs)
    show ?thesis
    proof (cases "b = nl \<and> c = nl")
      case True
      with Cons.prems(1) Cons have ik: "i = k" by simp
      from True Cons.prems(2) have nf: "\<not> found" by simp
      from True nf Cons ik show ?thesis by simp
    next
      case False
      with Cons.prems(1) Cons have rest: "boundaries_from (Suc k) bs = i # others"
        by (auto split: if_splits)
      then have "i \<in> set (boundaries_from (Suc k) bs)" by simp
      then have ge: "Suc k \<le> i" by (rule boundaries_from_ge)
      then have idx: "i - k = Suc (i - Suc k)" by arith
      show ?thesis
      proof (cases "b = nl")
        case True
        with Cons.prems(2) have nf: "\<not> found" by simp
        from False True Cons have "\<not> (True \<and> bs \<noteq> [] \<and> hd bs = nl)" by simp
        from Cons.IH[OF rest this, of "token @ [b]" "advance + 1"] True nf idx
        show ?thesis by simp
      next
        case nb: False
        have "\<not> (False \<and> bs \<noteq> [] \<and> hd bs = nl)" by simp
        from Cons.IH[OF rest this, of "token @ [b]" "advance + 1"] nb idx
        show ?thesis by simp
      qed
    qed
  qed
qed

section \<open>Properties of the tokenizer\<close>

text \<open>
  Claim C8. On a byte sequence in which no newline byte is directly followed by another
  newline byte, \<open>eventSplit\<close> consumes the whole input and returns it unchanged as the
  token, with a nil error, whatever \<open>atEOF\<close> is.
\<close>

theorem eventSplit_no_boundary:
  "boundaries data = [] \<Longrightarrow> eventSplit data atEOF = (length data, data, None)"
  using eventSplit_loop_no_boundary[of 0 data False "[]" 0]
  by (simp add: eventSplit_def boundaries_def)

theorem eventSplit_no_boundary_witness:
  "boundaries ''event: put\<newline>data: 1\<newline>'' = [] \<and>
   eventSplit ''event: put\<newline>data: 1\<newline>'' False = (19, ''event: put\<newline>data: 1\<newline>'', None)"
proof -
  have h: "boundaries ''event: put\<newline>data: 1\<newline>'' = []"
    by (simp add: boundaries_def)
  from eventSplit_no_boundary[OF h, of False] h show ?thesis by simp
qed

text \<open>
  Claim C9. On a byte sequence with exactly one blank-line boundary, two consecutive
  newline bytes at positions \<open>i\<close> and \<open>i + 1\<close>, \<open>eventSplit\<close> returns the prefix
  that ends with the second of them as the token and reports its length, \<open>i + 2\<close>,
  as the number of bytes consumed.
\<close>

theorem eventSplit_one_boundary:
  "boundaries data = [i] \<Longrightarrow> eventSplit data atEOF = (i + 2, take (i + 2) data, None)"
  using eventSplit_loop_first_boundary[of 0 data i "[]" False "[]" 0]
  by (simp add: eventSplit_def boundaries_def)

theorem eventSplit_one_boundary_witness:
  "boundaries ''event: cancel\<newline>\<newline>event: p'' = [13] \<and>
   eventSplit ''event: cancel\<newline>\<newline>event: p'' True = (15, ''event: cancel\<newline>\<newline>'', None)"
proof -
  have h: "boundaries ''event: cancel\<newline>\<newline>event: p'' = [13]"
    by (simp add: boundaries_def)
  from eventSplit_one_boundary[OF h, of True] h show ?thesis by simp
qed

section \<open>Properties of the read loop\<close>

text \<open>
  \<open>strings.Split\<close> never returns an empty slice, so \<open>hd\<close> in \<open>frame_Type\<close> and
  \<open>handle_frame\<close> is always \<open>parts[0]\<close>.
\<close>

lemma split_lines_nonempty: "split_lines cur s \<noteq> []"
  by (induction s arbitrary: cur) auto

lemma Split_nl_nonempty: "Split_nl s \<noteq> []"
  by (simp add: Split_nl_def split_lines_nonempty)

text \<open>
  Claim C1, as the code has it. For every frame whose first line yields a \<open>Type\<close>
  other than put, patch, keep-alive, cancel and auth_revoked, the loop body sends
  nothing on the consumer channel and the loop goes on with the next frame: the switch
  has no default case.
\<close>

theorem unknown_type_not_forwarded:
  "frame_Type text \<notin> {''put'', ''patch'', ''keep-alive'', ''cancel'', ''auth_revoked''} \<Longrightarrow>
   handle_frame unmarshal text notifications = Continue notifications \<and>
   scanning unmarshal (text # texts) notifications = scanning unmarshal texts notifications"
  by (simp add: handle_frame_def frame_Type_def Let_def)

theorem unknown_type_not_forwarded_witness:
  "frame_Type ''event: foo\<newline>\<newline>'' \<notin> {''put'', ''patch'', ''keep-alive'', ''cancel'', ''auth_revoked''} \<and>
   handle_frame sample_Unmarshal ''event: foo\<newline>\<newline>'' \<lparr>sent = [], closed = False\<rparr>
     = Continue \<lparr>sent = [], closed = False\<rparr> \<and>
   scanning sample_Unmarshal [''event: foo\<newline>\<newline>'', ''event: cancel\<newline>\<newline>'']
       \<lparr>sent = [], closed = False\<rparr>
     = scanning sample_Unmarshal [''event: cancel\<newline>\<newline>''] \<lparr>sent = [], closed = False\<rparr>"
proof -
  have h: "frame_Type ''event: foo\<newline>\<newline>'' \<notin> {''put'', ''patch'', ''keep-alive'', ''cancel'', ''auth_revoked''}"
    by (simp add: frame_Type_def Split_nl_def)
  from unknown_type_not_forwarded[OF h, of sample_Unmarshal "\<lparr>sent = [], closed = False\<rparr>" "[''event: cancel\<newline>\<newline>'']"] h
  show ?thesis by blast
qed

text \<open>
  Claim C1 as it was stated asks for an event of the unknown \<open>Type\<close>, with empty
  \<open>Path\<close> and nil \<open>Data\<close>, on the consumer channel. For the frame of type
  \<open>rules_debug\<close> the loop ends with nothing sent.
\<close>

theorem unknown_type_counterexample:
  "frame_Type ''event: rules_debug\<newline>\<newline>'' = ''rules_debug'' \<and>
   scanning sample_Unmarshal [''event: rules_debug\<newline>\<newline>''] \<lparr>sent = [], closed = False\<rparr>
     = Inr \<lparr>sent = [], closed = False\<rparr> \<and>
   scanning sample_Unmarshal [''event: rules_debug\<newline>\<newline>''] \<lparr>sent = [], closed = False\<rparr>
     \<noteq> Inr \<lparr>sent = [\<lparr>Type = ''rules_debug'', Path = '''', Data = INil\<rparr>], closed = False\<rparr>"
  by (simp add: handle_frame_def frame_Type_def Split_nl_def)

text \<open>
  Claim C2. A frame of \<open>Type\<close> auth_revoked is to be forwarded on the consumer
  channel and to end the loop, as a cancel frame does. The case for auth_revoked in
  the switch is empty. On an auth_revoked frame followed by a put frame, the loop
  forwards the put event only, so the first frame was neither forwarded nor the end of
  the loop; a cancel frame in the same place is forwarded and ends the loop.
\<close>

theorem auth_revoked_not_forwarded:
  \<open>scanning sample_Unmarshal
      [''event: auth_revoked\<newline>data: "credential is no longer valid"\<newline>\<newline>'',
       ''event: put\<newline>data: {"path":"/a","data":5}\<newline>\<newline>'']
      \<lparr>sent = [], closed = False\<rparr>
     = Inr \<lparr>sent = [\<lparr>Type = ''put'', Path = ''/a'', Data = IFloat64 5\<rparr>], closed = False\<rparr> \<and>
   scanning sample_Unmarshal
      [''event: cancel\<newline>\<newline>'',
       ''event: put\<newline>data: {"path":"/a","data":5}\<newline>\<newline>'']
      \<lparr>sent = [], closed = False\<rparr>
     = Inr \<lparr>sent = [\<lparr>Type = ''cancel'', Path = '''', Data = INil\<rparr>], closed = False\<rparr>\<close>
  by (simp add: handle_frame_def Split_nl_def sample_Unmarshal_def chan_send_def map_index_def)




text \<open>
  Claim C10. For a put or patch frame and an open consumer channel: a frame of one line
  panics with an index out of range at \<open>parts[1]\<close>; a payload that decodes to a map in
  which \<open>"path"\<close> is absent or not a string panics at the type assertion; and the
  loop body completes, going on to the next frame, exactly when the frame has a second
  line whose payload decodes to a map with a string under \<open>"path"\<close>.
\<close>

theorem put_patch_handler_precondition:
  assumes "frame_Type text = ''put'' \<or> frame_Type text = ''patch''"
    and "\<not> closed notifications"
  shows "(tl (Split_nl text) = [] \<longrightarrow>
            handle_frame unmarshal text notifications = Stop (Panic IndexOutOfRange)) \<and>
         (tl (Split_nl text) = payload # rest \<and>
          unmarshal (Replace_first payload ''data: '' '''') = Inr data \<and>
          (\<forall>path. data ''path'' \<noteq> Some (IString path)) \<longrightarrow>
            handle_frame unmarshal text notifications = Stop (Panic TypeAssertion)) \<and>
         ((\<exists>c. handle_frame unmarshal text notifications = Continue c) \<longleftrightarrow>
          (\<exists>q qs obj path. tl (Split_nl text) = q # qs \<and>
             unmarshal (Replace_first q ''data: '' '''') = Inr obj \<and>
             obj ''path'' = Some (IString path)))"
proof (intro conjI impI)
  assume "tl (Split_nl text) = []"
  with assms(1) show "handle_frame unmarshal text notifications = Stop (Panic IndexOutOfRange)"
    by (auto simp: handle_frame_def frame_Type_def Let_def)
next
  assume a: "tl (Split_nl text) = payload # rest \<and>
          unmarshal (Replace_first payload ''data: '' '''') = Inr data \<and>
          (\<forall>path. data ''path'' \<noteq> Some (IString path))"
  then have "\<And>path. map_index data ''path'' \<noteq> IString path"
    by (auto simp: map_index_def split: option.splits)
  with a assms(1) show "handle_frame unmarshal text notifications = Stop (Panic TypeAssertion)"
    by (auto simp: handle_frame_def frame_Type_def Let_def split: iface.splits)
next
  show "(\<exists>c. handle_frame unmarshal text notifications = Continue c) \<longleftrightarrow>
          (\<exists>q qs obj path. tl (Split_nl text) = q # qs \<and>
             unmarshal (Replace_first q ''data: '' '''') = Inr obj \<and>
             obj ''path'' = Some (IString path))"
  proof
    assume "\<exists>c. handle_frame unmarshal text notifications = Continue c"
    then obtain c where c: "handle_frame unmarshal text notifications = Continue c" ..
    with assms(1) obtain q qs where q: "tl (Split_nl text) = q # qs"
      by (cases "tl (Split_nl text)") (auto simp: handle_frame_def frame_Type_def Let_def)
    with c assms(1) obtain obj where obj: "unmarshal (Replace_first q ''data: '' '''') = Inr obj"
      by (cases "unmarshal (Replace_first q ''data: '' '''')")
         (auto simp: handle_frame_def frame_Type_def Let_def)
    with c q assms(1) obtain path where "map_index obj ''path'' = IString path"
      by (cases "map_index obj ''path''")
         (auto simp: handle_frame_def frame_Type_def Let_def)
    then have "obj ''path'' = Some (IString path)"
      by (auto simp: map_index_def split: option.splits)
    with q obj show "\<exists>q qs obj path. tl (Split_nl text) = q # qs \<and>
             unmarshal (Replace_first q ''data: '' '''') = Inr obj \<and>
             obj ''path'' = Some (IString path)" by blast
  next
    assume "\<exists>q qs obj path. tl (Split_nl text) = q # qs \<and>
             unmarshal (Replace_first q ''data: '' '''') = Inr obj \<and>
             obj ''path'' = Some (IString path)"
    then obtain q qs obj path where "tl (Split_nl text) = q # qs"
      "unmarshal (Replace_first q ''data: '' '''') = Inr obj" "obj ''path'' = Some (IString path)"
      by blast
    with assms show "\<exists>c. handle_frame unmarshal text notifications = Continue c"
      by (auto simp: handle_frame_def frame_Type_def Let_def map_index_def chan_send_def)
  qed
qed

theorem put_patch_handler_precondition_witness:
  \<open>(frame_Type ''event: put'' = ''put'' \<or> frame_Type ''event: put'' = ''patch'') \<and>
    \<not> closed (\<lparr>sent = [], closed = False\<rparr> :: Event chan) \<and>
    tl (Split_nl ''event: put'') = [] \<and>
    handle_frame sample_Unmarshal ''event: put'' \<lparr>sent = [], closed = False\<rparr>
      = Stop (Panic IndexOutOfRange) \<and>
    (frame_Type ''event: patch\<newline>data: {"data":5}\<newline>\<newline>'' = ''put'' \<or>
     frame_Type ''event: patch\<newline>data: {"data":5}\<newline>\<newline>'' = ''patch'') \<and>
    tl (Split_nl ''event: patch\<newline>data: {"data":5}\<newline>\<newline>'') = ''data: {"data":5}'' # ['''', ''''] \<and>
    sample_Unmarshal (Replace_first ''data: {"data":5}'' ''data: '' '''')
      = Inr [''data'' \<mapsto> IFloat64 5] \<and>
    (\<forall>path. [''data'' \<mapsto> IFloat64 5] ''path'' \<noteq> Some (IString path)) \<and>
    handle_frame sample_Unmarshal ''event: patch\<newline>data: {"data":5}\<newline>\<newline>''
        \<lparr>sent = [], closed = False\<rparr>
      = Stop (Panic TypeAssertion) \<and>
    (frame_Type ''event: put\<newline>data: {"path":7,"data":5}\<newline>\<newline>'' = ''put'' \<or>
     frame_Type ''event: put\<newline>data: {"path":7,"data":5}\<newline>\<newline>'' = ''patch'') \<and>
    tl (Split_nl ''event: put\<newline>data: {"path":7,"data":5}\<newline>\<newline>'')
      = ''data: {"path":7,"data":5}'' # ['''', ''''] \<and>
    sample_Unmarshal (Replace_first ''data: {"path":7,"data":5}'' ''data: '' '''')
      = Inr [''path'' \<mapsto> IFloat64 7, ''data'' \<mapsto> IFloat64 5] \<and>
    (\<forall>path. [''path'' \<mapsto> IFloat64 7, ''data'' \<mapsto> IFloat64 5] ''path'' \<noteq> Some (IString path)) \<and>
    handle_frame sample_Unmarshal ''event: put\<newline>data: {"path":7,"data":5}\<newline>\<newline>''
        \<lparr>sent = [], closed = False\<rparr>
      = Stop (Panic TypeAssertion) \<and>
    (frame_Type ''event: put\<newline>data: {"path":"/a","data":5}\<newline>\<newline>'' = ''put'' \<or>
     frame_Type ''event: put\<newline>data: {"path":"/a","data":5}\<newline>\<newline>'' = ''patch'') \<and>
    (\<exists>c. handle_frame sample_Unmarshal ''event: put\<newline>data: {"path":"/a","data":5}\<newline>\<newline>''
           \<lparr>sent = [], closed = False\<rparr> = Continue c)\<close>
proof -
  let ?c = "\<lparr>sent = [], closed = False\<rparr> :: Event chan"
  let ?t = \<open>''event: patch\<newline>data: {"data":5}\<newline>\<newline>''\<close>
  let ?u = \<open>''event: put\<newline>data: {"path":7,"data":5}\<newline>\<newline>''\<close>
  let ?v = \<open>''event: put\<newline>data: {"path":"/a","data":5}\<newline>\<newline>''\<close>
  have h1: "frame_Type ''event: put'' = ''put'' \<or> frame_Type ''event: put'' = ''patch''"
    by (simp add: frame_Type_def Split_nl_def)
  have h2: "\<not> closed ?c" by simp
  have h3: "tl (Split_nl ''event: put'') = []" by (simp add: Split_nl_def)
  have g1: "frame_Type ?t = ''put'' \<or> frame_Type ?t = ''patch''"
    by (simp add: frame_Type_def Split_nl_def)
  have g3: \<open>tl (Split_nl ?t) = ''data: {"data":5}'' # ['''', '''']\<close>
    by (simp add: Split_nl_def)
  have g4: \<open>sample_Unmarshal (Replace_first ''data: {"data":5}'' ''data: '' '''')
      = Inr [''data'' \<mapsto> IFloat64 5]\<close>
    by (simp add: sample_Unmarshal_def)
  have g5: "\<forall>path. [''data'' \<mapsto> IFloat64 5] ''path'' \<noteq> Some (IString path)" by simp
  have k1: "frame_Type ?u = ''put'' \<or> frame_Type ?u = ''patch''"
    by (simp add: frame_Type_def Split_nl_def)
  have k3: \<open>tl (Split_nl ?u) = ''data: {"path":7,"data":5}'' # ['''', '''']\<close>
    by (simp add: Split_nl_def)
  have k4: \<open>sample_Unmarshal (Replace_first ''data: {"path":7,"data":5}'' ''data: '' '''')
      = Inr [''path'' \<mapsto> IFloat64 7, ''data'' \<mapsto> IFloat64 5]\<close>
    by (simp add: sample_Unmarshal_def)
  have k5: "\<forall>path. [''path'' \<mapsto> IFloat64 7, ''data'' \<mapsto> IFloat64 5] ''path'' \<noteq> Some (IString path)"
    by simp
  have m1: "frame_Type ?v = ''put'' \<or> frame_Type ?v = ''patch''"
    by (simp add: frame_Type_def Split_nl_def)
  have m3: \<open>tl (Split_nl ?v) = ''data: {"path":"/a","data":5}'' # ['''', '''']\<close>
    by (simp add: Split_nl_def)
  have m4: \<open>sample_Unmarshal (Replace_first ''data: {"path":"/a","data":5}'' ''data: '' '''')
      = Inr [''path'' \<mapsto> IString ''/a'', ''data'' \<mapsto> IFloat64 5]\<close>
    by (simp add: sample_Unmarshal_def)
  have m5: "[''path'' \<mapsto> IString ''/a'', ''data'' \<mapsto> IFloat64 5] ''path'' = Some (IString ''/a'')"
    by simp
  from put_patch_handler_precondition[where unmarshal = sample_Unmarshal, OF h1 h2] h3
  have a: "handle_frame sample_Unmarshal ''event: put'' ?c = Stop (Panic IndexOutOfRange)"
    by blast
  from put_patch_handler_precondition[where unmarshal = sample_Unmarshal
      and payload = \<open>''data: {"data":5}''\<close> and rest = "['''', '''']"
      and data = "[''data'' \<mapsto> IFloat64 5]", OF g1 h2] g3 g4 g5
  have b: "handle_frame sample_Unmarshal ?t ?c = Stop (Panic TypeAssertion)"
    by blast
  from put_patch_handler_precondition[where unmarshal = sample_Unmarshal
      and payload = \<open>''data: {"path":7,"data":5}''\<close> and rest = "['''', '''']"
      and data = "[''path'' \<mapsto> IFloat64 7, ''data'' \<mapsto> IFloat64 5]", OF k1 h2] k3 k4 k5
  have c: "handle_frame sample_Unmarshal ?u ?c = Stop (Panic TypeAssertion)"
    by blast
  from put_patch_handler_precondition[where unmarshal = sample_Unmarshal, OF m1 h2] m3 m4 m5
  have d: "\<exists>c. handle_frame sample_Unmarshal ?v ?c = Continue c"
    by blast
  from h1 h2 h3 a g1 g3 g4 g5 b k1 k3 k4 k5 c m1 d show ?thesis by blast
qed

text \<open>
  Claim C3. With a decoder that reads the payload \<open>{"path":"/a","data":5}\<close> as the
  map of \<open>"path"\<close> to the string \<open>/a\<close> and of \<open>"data"\<close> to the number 5, in a
  state where the flag is set and the consumer channel is open and unused, the
  goroutine run on the put frame, the keep-alive frame and the cancel frame returns;
  the consumer channel then holds exactly the put event with path \<open>/a\<close> and data 5
  followed by the cancel event with empty path and nil data, it is closed, and the
  flag is cleared.
\<close>

theorem scenario_put_keepalive_cancel:
  assumes \<open>unmarshal ''{"path":"/a","data":5}'' = Inr data\<close>
    and "data ''path'' = Some (IString ''/a'')"
    and "data ''data'' = Some (IFloat64 5)"
    and "watching w"
    and "chans w notifications = \<lparr>sent = [], closed = False\<rparr>"
  shows \<open>\<exists>w'. read_loop unmarshal
            [''event: put\<newline>data: {"path":"/a","data":5}\<newline>\<newline>'',
             ''event: keep-alive\<newline>\<newline>'',
             ''event: cancel\<newline>\<newline>''] notifications resp w = Inr w' \<and>
          chans w' notifications =
            \<lparr>sent = [\<lparr>Type = ''put'', Path = ''/a'', Data = IFloat64 5\<rparr>,
                    \<lparr>Type = ''cancel'', Path = '''', Data = INil\<rparr>],
             closed = True\<rparr> \<and>
          \<not> watching w'\<close>
proof -
  let ?c0 = "\<lparr>sent = [], closed = False\<rparr> :: Event chan"
  let ?c1 = "\<lparr>sent = [\<lparr>Type = ''put'', Path = ''/a'', Data = IFloat64 5\<rparr>], closed = False\<rparr>"
  let ?c2 = "\<lparr>sent = [\<lparr>Type = ''put'', Path = ''/a'', Data = IFloat64 5\<rparr>,
                     \<lparr>Type = ''cancel'', Path = '''', Data = INil\<rparr>], closed = False\<rparr>"
  have put: \<open>handle_frame unmarshal ''event: put\<newline>data: {"path":"/a","data":5}\<newline>\<newline>'' ?c0
               = Continue ?c1\<close>
    using assms(1-3)
    by (simp add: handle_frame_def Split_nl_def chan_send_def map_index_def)
  have keep: "handle_frame unmarshal ''event: keep-alive\<newline>\<newline>'' ?c1 = Continue ?c1"
    by (simp add: handle_frame_def Split_nl_def)
  have cancel: "handle_frame unmarshal ''event: cancel\<newline>\<newline>'' ?c1 = Break ?c2"
    by (simp add: handle_frame_def Split_nl_def chan_send_def)
  have scan: \<open>scanning unmarshal
            [''event: put\<newline>data: {"path":"/a","data":5}\<newline>\<newline>'',
             ''event: keep-alive\<newline>\<newline>'',
             ''event: cancel\<newline>\<newline>''] ?c0 = Inr ?c2\<close>
    by (simp only: scanning.simps put keep cancel step.case)
  let ?w1 = "w\<lparr>stop_receivers := stop_receivers w @ [resp]\<rparr>"
  have c1: "chans ?w1 notifications = ?c0"
    using assms(5) by simp
  obtain r rs where rcv: "stop_receivers w @ [resp] = r # rs"
    by (cases "stop_receivers w @ [resp]") auto
  let ?w2 = "?w1\<lparr>chans := (chans ?w1)(notifications := ?c2)\<rparr>"
  let ?w3 = "?w2\<lparr>stop_receivers := rs, closed_bodies := closed_bodies ?w2 @ [r],
                  watching := False\<rparr>"
  have stop: "StopWatching ?w2 = Inr ?w3"
    using assms(4) rcv by (simp add: StopWatching_def)
  have close: "chan_close (chans ?w3 notifications) = Inr (?c2\<lparr>closed := True\<rparr>)"
    by (simp add: chan_close_def)
  have "read_loop unmarshal
            [''event: put\<newline>data: {\"path\":\"/a\",\"data\":5}\<newline>\<newline>'',
             ''event: keep-alive\<newline>\<newline>'',
             ''event: cancel\<newline>\<newline>''] notifications resp w
          = Inr (?w3\<lparr>chans := (chans ?w3)(notifications := ?c2\<lparr>closed := True\<rparr>)\<rparr>)"
    unfolding read_loop_def Let_def c1 scan sum.case stop close ..
  then show ?thesis by simp
qed

theorem scenario_put_keepalive_cancel_witness:
  \<open>sample_Unmarshal ''{"path":"/a","data":5}''
       = Inr [''path'' \<mapsto> IString ''/a'', ''data'' \<mapsto> IFloat64 5] \<and>
    [''path'' \<mapsto> IString ''/a'', ''data'' \<mapsto> IFloat64 5] ''path'' = Some (IString ''/a'') \<and>
    [''path'' \<mapsto> IString ''/a'', ''data'' \<mapsto> IFloat64 5] ''data'' = Some (IFloat64 5) \<and>
    watching (fresh_world\<lparr>watching := True, loops := [(0, 0)]\<rparr>) \<and>
    chans (fresh_world\<lparr>watching := True, loops := [(0, 0)]\<rparr>) 0 = \<lparr>sent = [], closed = False\<rparr> \<and>
    (\<exists>w'. read_loop sample_Unmarshal
            [''event: put\<newline>data: {"path":"/a","data":5}\<newline>\<newline>'',
             ''event: keep-alive\<newline>\<newline>'',
             ''event: cancel\<newline>\<newline>''] 0 0
            (fresh_world\<lparr>watching := True, loops := [(0, 0)]\<rparr>) = Inr w' \<and>
          chans w' 0 =
            \<lparr>sent = [\<lparr>Type = ''put'', Path = ''/a'', Data = IFloat64 5\<rparr>,
                    \<lparr>Type = ''cancel'', Path = '''', Data = INil\<rparr>],
             closed = True\<rparr> \<and>
          \<not> watching w')\<close>
proof -
  let ?d = "[''path'' \<mapsto> IString ''/a'', ''data'' \<mapsto> IFloat64 5]"
  let ?w = "fresh_world\<lparr>watching := True, loops := [(0, 0)]\<rparr>"
  have h1: \<open>sample_Unmarshal ''{"path":"/a","data":5}'' = Inr ?d\<close>
    by (simp add: sample_Unmarshal_def)
  have h2: "?d ''path'' = Some (IString ''/a'')" by simp
  have h3: "?d ''data'' = Some (IFloat64 5)" by simp
  have h4: "watching ?w" by simp
  have h5: "chans ?w 0 = \<lparr>sent = [], closed = False\<rparr>" by (simp add: fresh_world_def)
  from scenario_put_keepalive_cancel[of sample_Unmarshal ?d ?w 0 0, OF h1 h2 h3 h4 h5]
    h1 h2 h3 h4 h5
  show ?thesis by blast
qed

text \<open>
  The three frames of the scenario are what the scanner yields when the bytes of the
  stream are in its buffer.
\<close>

lemma scenario_stream_frames:
  \<open>scan_buffer
      ''event: put\<newline>data: {"path":"/a","data":5}\<newline>\<newline>event: keep-alive\<newline>\<newline>event: cancel\<newline>\<newline>''
    = [''event: put\<newline>data: {"path":"/a","data":5}\<newline>\<newline>'',
       ''event: keep-alive\<newline>\<newline>'',
       ''event: cancel\<newline>\<newline>'']\<close>
  by (simp add: eventSplit_def)

section \<open>Properties of the watch session\<close>

text \<open>
  Claim C4. When \<open>Watch\<close> is called while the flag is set, with an open channel, the
  call closes that channel and returns nil. Nothing is sent on the channel, and the
  flag, the goroutines waiting for the stop signal, the launched read loops and every
  other channel, the consumer channel of the running watch among them, stay as they
  were.
\<close>

theorem Watch_while_watching:
  assumes "watching w" and "\<not> closed (chans w notifications)"
  shows "\<exists>w'. Watch makeRequest client_Do w notifications = Inr (w', None) \<and>
           closed (chans w' notifications) \<and>
           sent (chans w' notifications) = sent (chans w notifications) \<and>
           watching w' = watching w \<and>
           stop_receivers w' = stop_receivers w \<and>
           closed_bodies w' = closed_bodies w \<and>
           loops w' = loops w \<and>
           (\<forall>c. c \<noteq> notifications \<longrightarrow> chans w' c = chans w c)"
  using assms by (simp add: Watch_def chan_close_def)

theorem Watch_while_watching_witness:
  "watching (fresh_world\<lparr>watching := True, loops := [(0, 0)]\<rparr>) \<and>
   \<not> closed (chans (fresh_world\<lparr>watching := True, loops := [(0, 0)]\<rparr>) 1) \<and>
   (\<exists>w'. Watch sample_makeRequest sample_Do (fresh_world\<lparr>watching := True, loops := [(0, 0)]\<rparr>) 1
            = Inr (w', None) \<and>
          closed (chans w' 1) \<and> sent (chans w' 1) = [] \<and> watching w' \<and>
          loops w' = [(0, 0)] \<and> chans w' 0 = \<lparr>sent = [], closed = False\<rparr>)"
proof -
  let ?w = "fresh_world\<lparr>watching := True, loops := [(0, 0)]\<rparr>"
  have h1: "watching ?w" by simp
  have h2: "\<not> closed (chans ?w 1)" by (simp add: fresh_world_def)
  from Watch_while_watching[OF h1 h2, of sample_makeRequest sample_Do]
  obtain w' where w': "Watch sample_makeRequest sample_Do ?w 1 = Inr (w', None)"
    "closed (chans w' 1)" "sent (chans w' 1) = sent (chans ?w 1)" "watching w' = watching ?w"
    "loops w' = loops ?w" "\<forall>c. c \<noteq> 1 \<longrightarrow> chans w' c = chans ?w c"
    by blast
  from w'(6) have "chans w' 0 = chans ?w 0" by simp
  with w' h1 h2 show ?thesis by (auto simp: fresh_world_def)
qed

text \<open>
  Claim C5. When the flag is clear and either \<open>makeRequest\<close> fails, or it succeeds and
  \<open>client.Do\<close> fails on the request with the added \<open>Accept\<close> header, \<open>Watch\<close>
  returns that error and the state is unchanged: no read loop is launched, nothing is
  sent on the channel, the channel is not closed, and the flag stays clear.
\<close>

theorem Watch_setup_error:
  assumes "\<not> watching w"
    and "makeRequest ''GET'' = Inl err \<or>
         (\<exists>req. makeRequest ''GET'' = Inr req \<and>
                client_Do (req\<lparr>req_header := req_header req @ [(''Accept'', ''text/event-stream'')]\<rparr>)
                  = Inl err)"
  shows "Watch makeRequest client_Do w notifications = Inr (w, Some err)"
  using assms by (auto simp: Watch_def)

theorem Watch_setup_error_witness:
  "\<not> watching fresh_world \<and>
   failing_makeRequest ''GET'' = Inl ''invalid URL'' \<and>
   Watch failing_makeRequest sample_Do fresh_world 0 = Inr (fresh_world, Some ''invalid URL'') \<and>
   sample_makeRequest ''GET'' = Inr \<lparr>req_method = ''GET'', req_header = []\<rparr> \<and>
   failing_Do (\<lparr>req_method = ''GET'', req_header = []\<rparr>\<lparr>req_header := [] @ [(''Accept'', ''text/event-stream'')]\<rparr>)
     = Inl ''connection refused'' \<and>
   Watch sample_makeRequest failing_Do fresh_world 0 = Inr (fresh_world, Some ''connection refused'')"
proof -
  have h1: "\<not> watching fresh_world" by (simp add: fresh_world_def)
  have h2: "failing_makeRequest ''GET'' = Inl ''invalid URL''" by (simp add: failing_makeRequest_def)
  have h3: "sample_makeRequest ''GET'' = Inr \<lparr>req_method = ''GET'', req_header = []\<rparr>"
    by (simp add: sample_makeRequest_def)
  have h4: "failing_Do (\<lparr>req_method = ''GET'', req_header = []\<rparr>\<lparr>req_header := [] @ [(''Accept'', ''text/event-stream'')]\<rparr>)
     = Inl ''connection refused''" by (simp add: failing_Do_def)
  have a: "Watch failing_makeRequest sample_Do fresh_world 0 = Inr (fresh_world, Some ''invalid URL'')"
    using Watch_setup_error[OF h1, of failing_makeRequest "''invalid URL''" sample_Do 0] h2 by simp
  have b: "Watch sample_makeRequest failing_Do fresh_world 0 = Inr (fresh_world, Some ''connection refused'')"
    using Watch_setup_error[OF h1, of sample_makeRequest "''connection refused''" failing_Do 0] h3 h4 by simp
  from h1 h2 h3 h4 a b show ?thesis by blast
qed



end
